theory Spec2Isabelle
  imports Main
begin

section \<open>The CalDAV calendar client of \<^verbatim>\<open>cal_dav_interface.py\<close>\<close>

text \<open>
  The class \<^verbatim>\<open>CalDavInterface\<close> sits on two libraries: a CalDAV transport (the
  \<^verbatim>\<open>caldav\<close> calendar object) and an iCalendar codec (\<^verbatim>\<open>icalendar\<close>), and on
  the \<^verbatim>\<open>datetime\<close> and \<^verbatim>\<open>str\<close> types of Python. The methods of the class are
  embedded here as HOL functions. What the libraries do is taken as follows.
  \<^item> Text is a list of code points.
  \<^item> An instant of \<^verbatim>\<open>datetime\<close> is its wall-clock reading, counted in microseconds
    from midnight of day 0 of the proleptic calendar, its \<^verbatim>\<open>fold\<close> flag, and its zone:
    \<open>None\<close> for a naive value, the zone object for an aware one. A calendar date is its
    day number. Instants lie between 0001-01-01 00:00:00 and 9999-12-31 23:59:59.999999;
    arithmetic that leaves this range fails with OverflowError.
  \<^item> A zone object is known by its identity, a number. What it answers to
    \<^verbatim>\<open>utcoffset\<close> for a wall clock and a fold flag is a parameter of the run. Every zone
    object answers with an offset.
  \<^item> A payload is kept as what the codec's \<^verbatim>\<open>Calendar.from_ical(data, True)\<close> makes of
    it: a failure, or the list of top-level components. Of a component's fields only
    \<^verbatim>\<open>DTSTART\<close>, \<^verbatim>\<open>DTEND\<close> and \<^verbatim>\<open>SUMMARY\<close> are kept, the three the client reads and writes.
  \<^item> The transport is a parameter: a record of the operations the client calls on the
    calendar handle, over a remote state of any type.
\<close>

subsection \<open>Failures\<close>

datatype error =
    TypeError
  | AttributeError
  | IndexError
  | KeyError
  | ValueError
  | OverflowError
  | OSError
  | NotFoundError
  | DAVError

subsection \<open>Text\<close>

type_synonym ustring = "nat list"

text \<open>The text of an ASCII literal.\<close>

definition str :: "string \<Rightarrow> ustring" where
  "str s = map of_char s"

subsection \<open>Dates and instants\<close>

type_synonym date = int

record datetime =
  wall :: int
  fold :: bool
  tzinfo :: "nat option"

definition usec_per_day :: int where
  "usec_per_day = 86400000000"

text \<open>The range of \<^verbatim>\<open>datetime\<close>: day 1 is 0001-01-01 and day 3652059 is 9999-12-31.\<close>

definition in_range :: "int \<Rightarrow> bool" where
  "in_range w = (usec_per_day \<le> w \<and> w < 3652060 * usec_per_day)"

text \<open>\<^verbatim>\<open>datetime.min.time()\<close> is 00:00:00, \<^verbatim>\<open>datetime.max.time()\<close> is 23:59:59.999999,
  both as microseconds into the day.\<close>

definition min_time :: int where
  "min_time = 0"

definition max_time :: int where
  "max_time = 86399999999"

text \<open>\<^verbatim>\<open>datetime.combine(d, t)\<close> for a time without zone: a naive instant.\<close>

definition combine :: "date \<Rightarrow> int \<Rightarrow> datetime" where
  "combine d t = \<lparr>wall = d * usec_per_day + t, fold = False, tzinfo = None\<rparr>"

text \<open>\<^verbatim>\<open>x.replace(tzinfo=z)\<close> keeps the wall clock and the fold flag and swaps the zone.\<close>

definition replace_tzinfo :: "datetime \<Rightarrow> nat option \<Rightarrow> datetime" where
  "replace_tzinfo x z = x\<lparr>tzinfo := z\<rparr>"

text \<open>\<^verbatim>\<open>x.date()\<close>: the day of the wall clock.\<close>

definition date_of :: "datetime \<Rightarrow> date" where
  "date_of x = wall x div usec_per_day"

text \<open>\<^verbatim>\<open>dt.timedelta(n)\<close> for a whole number \<open>n\<close> is a span of \<open>n\<close> days, of at most
  999999999 days; a span is a number of microseconds. \<^verbatim>\<open>x + span\<close> moves the wall clock,
  keeps the zone and clears the fold flag.\<close>

definition timedelta :: "int \<Rightarrow> error + int" where
  "timedelta days =
     (if - 999999999 \<le> days \<and> days \<le> 999999999 then Inr (days * usec_per_day)
      else Inl OverflowError)"

definition dt_add :: "datetime \<Rightarrow> int \<Rightarrow> error + datetime" where
  "dt_add x span =
     (if in_range (wall x + span)
      then Inr \<lparr>wall = wall x + span, fold = False, tzinfo = tzinfo x\<rparr>
      else Inl OverflowError)"

subsection \<open>The Event mapping\<close>

text \<open>\<open>event_url = None\<close> is the mapping without that key, as \<^verbatim>\<open>get_event_details\<close>
  returns it.\<close>

record event =
  title :: ustring
  starttime :: "datetime option"
  endtime :: "datetime option"
  event_url :: "string option"

subsection \<open>The Python runtime\<close>

text \<open>What a run of the client takes from its surroundings:
  \<^item> \<open>utcoffset z w f\<close>, the offset that the zone object \<open>z\<close> answers for the wall clock
    \<open>w\<close> with fold flag \<open>f\<close>;
  \<^item> \<open>localtime w f\<close>, the offset of the zone of the operating system for a naive wall
    clock, which \<^verbatim>\<open>astimezone\<close> consults for a naive value and which may fail;
  \<^item> \<open>today k\<close>, the naive local wall clock that the \<open>k\<close>-th call of
    \<^verbatim>\<open>datetime.today()\<close> within a method returns;
  \<^item> \<open>timsort\<close>, the arrangement that \<^verbatim>\<open>sorted\<close> leaves of a list whose keys the
    comparison does not order consistently;
  \<^item> the character database behind \<^verbatim>\<open>str.lower\<close>: the full lower-case mapping of a
    code point, and the properties Cased and Case_Ignorable.\<close>

record runtime =
  utcoffset :: "nat \<Rightarrow> int \<Rightarrow> bool \<Rightarrow> int"
  localtime :: "int \<Rightarrow> bool \<Rightarrow> error + int"
  today :: "nat \<Rightarrow> int"
  timsort :: "event list \<Rightarrow> event list"
  tolower_full :: "nat \<Rightarrow> nat list"
  is_cased :: "nat \<Rightarrow> bool"
  is_case_ignorable :: "nat \<Rightarrow> bool"

subsection \<open>Zones\<close>

text \<open>\<^verbatim>\<open>Utc = pytz.UTC\<close>: one zone object, with offset zero.\<close>

definition Utc :: nat where
  "Utc = 0"

definition tz_offset :: "runtime \<Rightarrow> nat \<Rightarrow> int \<Rightarrow> bool \<Rightarrow> int" where
  "tz_offset rt z w f = (if z = Utc then 0 else utcoffset rt z w f)"

text \<open>The zone handed to the client. \<open>tz_ref\<close> is the zone object itself. For an instant
  \<open>u\<close> of UTC, \<open>offset_at u\<close> is the offset in force, and \<^verbatim>\<open>fromutc\<close> returns the wall clock
  \<open>u + offset_at u\<close> with the fold flag \<open>fold_at u\<close> and the zone object \<open>object_at u\<close>: the
  zone itself for \<^verbatim>\<open>zoneinfo\<close>, \<^verbatim>\<open>dateutil\<close> and \<^verbatim>\<open>datetime.timezone\<close>, an object of its own
  for every offset of the zone for \<^verbatim>\<open>pytz\<close>.\<close>

record timezone =
  tz_ref :: nat
  offset_at :: "int \<Rightarrow> int"
  fold_at :: "int \<Rightarrow> bool"
  object_at :: "int \<Rightarrow> nat"

definition fromutc :: "timezone \<Rightarrow> int \<Rightarrow> error + datetime" where
  "fromutc tz u =
     (if in_range (u + offset_at tz u)
      then Inr \<lparr>wall = u + offset_at tz u, fold = fold_at tz u, tzinfo = Some (object_at tz u)\<rparr>
      else Inl OverflowError)"

text \<open>The offset of a value: that of its zone object, or for a naive value that of the
  zone of the operating system.\<close>

definition offset_of :: "runtime \<Rightarrow> datetime \<Rightarrow> error + int" where
  "offset_of rt x =
     (case tzinfo x of
        None \<Rightarrow> localtime rt (wall x) (fold x)
      | Some z \<Rightarrow> Inr (tz_offset rt z (wall x) (fold x)))"

text \<open>\<^verbatim>\<open>x.astimezone(tz)\<close>. A value that carries the zone object \<open>tz\<close> itself is returned
  as it is. Otherwise the value is moved to UTC by its offset and handed to
  \<^verbatim>\<open>tz.fromutc\<close>.\<close>

definition astimezone :: "runtime \<Rightarrow> datetime \<Rightarrow> timezone \<Rightarrow> error + datetime" where
  "astimezone rt x tz =
     (if tzinfo x = Some (tz_ref tz) then Inr x
      else
        (case offset_of rt x of
           Inl e \<Rightarrow> Inl e
         | Inr off \<Rightarrow>
             (if in_range (wall x - off) then fromutc tz (wall x - off)
              else Inl OverflowError)))"

text \<open>\<^verbatim>\<open>a < b\<close> on instants. Two values with the same zone object, or both naive, are
  compared by wall clock. Two aware values with different zone objects are compared
  after each is moved to UTC by its offset, which is the comparison by wall clock when
  the two offsets are equal. A naive value against an aware one is a TypeError.\<close>

definition dt_lt :: "runtime \<Rightarrow> datetime \<Rightarrow> datetime \<Rightarrow> error + bool" where
  "dt_lt rt a b =
     (if tzinfo a = tzinfo b then Inr (wall a < wall b)
      else
        (case tzinfo a of
           None \<Rightarrow> Inl TypeError
         | Some za \<Rightarrow>
             (case tzinfo b of
                None \<Rightarrow> Inl TypeError
              | Some zb \<Rightarrow>
                  Inr (wall a - tz_offset rt za (wall a) (fold a)
                         < wall b - tz_offset rt zb (wall b) (fold b)))))"

text \<open>\<^verbatim>\<open>a > b\<close> is the same comparison with the sides exchanged.\<close>

definition dt_gt :: "runtime \<Rightarrow> datetime \<Rightarrow> datetime \<Rightarrow> error + bool" where
  "dt_gt rt a b = dt_lt rt b a"

subsection \<open>Components of the codec\<close>

text \<open>The value of a date field. \<open>No_dt\<close> is a field without the attribute \<^verbatim>\<open>dt\<close>: the
  list that the codec keeps for a repeated field, or a field it could not read.
  \<open>Not_a_date\<close> is a \<^verbatim>\<open>dt\<close> that is neither a date nor a timestamp: a duration, a time
  of day, a period.\<close>

datatype dt_value = Date date | Datetime datetime | Not_a_date | No_dt

text \<open>\<open>SUMMARY\<close> is kept as the text that \<^verbatim>\<open>str\<close> makes of the field.\<close>

record properties =
  DTSTART :: "dt_value option"
  DTEND :: "dt_value option"
  SUMMARY :: "ustring option"

datatype component = Component string properties "component list"

definition no_properties :: properties where
  "no_properties = \<lparr>DTSTART = None, DTEND = None, SUMMARY = None\<rparr>"

text \<open>\<^verbatim>\<open>c.walk(name)\<close>: the component itself when it has the name, then the walk of each
  sub-component, in order.\<close>

fun walk :: "string \<Rightarrow> component \<Rightarrow> component list" where
  "walk n (Component nm ps subs) =
     (if nm = n then [Component nm ps subs] else []) @ concat (map (walk n) subs)"

fun properties_of :: "component \<Rightarrow> properties" where
  "properties_of (Component nm ps subs) = ps"

datatype payload = Malformed | Decoded "component list"

subsection \<open>The transport\<close>

text \<open>What a query of the transport returns, and what \<^verbatim>\<open>event_by_url\<close> resolves: an
  object with its identifier and its payload.\<close>

record raw_event =
  url :: string
  data :: payload

text \<open>The operations the client calls on the calendar handle and on the objects it
  hands out, over a remote state \<open>'s\<close>. Every one of them may fail. \<open>set_summary\<close> is the
  assignment to \<^verbatim>\<open>vobject_instance.vevent.summary.value\<close>.\<close>

record 's transport =
  events :: "'s \<Rightarrow> error + raw_event list"
  date_search :: "'s \<Rightarrow> datetime \<Rightarrow> datetime \<Rightarrow> error + raw_event list"
  event_by_url :: "'s \<Rightarrow> string \<Rightarrow> error + raw_event"
  add_event :: "'s \<Rightarrow> component \<Rightarrow> error + 's"
  delete :: "'s \<Rightarrow> raw_event \<Rightarrow> error + 's"
  set_summary :: "raw_event \<Rightarrow> ustring \<Rightarrow> error + raw_event"
  save :: "'s \<Rightarrow> raw_event \<Rightarrow> error + 's"

subsection \<open>The client\<close>

record 's CalDavInterface =
  local_timezone :: timezone
  calendar :: "'s transport"

text \<open>\<^verbatim>\<open>get_event_details\<close>: the start, then the end, then the title. Reading
  \<^verbatim>\<open>dt\<close> off a field that has none is an AttributeError; \<^verbatim>\<open>datetime.combine\<close> on a
  value that is not a date is a TypeError; \<^verbatim>\<open>astimezone\<close> may fail.\<close>

definition get_event_details :: "'s CalDavInterface \<Rightarrow> runtime \<Rightarrow> component \<Rightarrow> error + event" where
  "get_event_details self rt ev =
     (case
        (case DTSTART (properties_of ev) of
           None \<Rightarrow> Inr None
         | Some No_dt \<Rightarrow> Inl AttributeError
         | Some Not_a_date \<Rightarrow> Inl TypeError
         | Some (Date d) \<Rightarrow> Inr (Some (replace_tzinfo (combine d min_time) (Some Utc)))
         | Some (Datetime x) \<Rightarrow>
             (case astimezone rt x (local_timezone self) of
                Inl e \<Rightarrow> Inl e
              | Inr y \<Rightarrow> Inr (Some y)))
      of
        Inl e \<Rightarrow> Inl e
      | Inr start \<Rightarrow>
          (case
             (case DTEND (properties_of ev) of
                None \<Rightarrow> Inr None
              | Some No_dt \<Rightarrow> Inl AttributeError
              | Some Not_a_date \<Rightarrow> Inl TypeError
              | Some (Date d) \<Rightarrow> Inr (Some (replace_tzinfo (combine d min_time) (Some Utc)))
              | Some (Datetime x) \<Rightarrow>
                  (case astimezone rt x (local_timezone self) of
                     Inl e \<Rightarrow> Inl e
                   | Inr y \<Rightarrow> Inr (Some y)))
           of
             Inl e \<Rightarrow> Inl e
           | Inr end \<Rightarrow>
               Inr \<lparr>title = (case SUMMARY (properties_of ev) of
                                None \<Rightarrow> str ''untitled event''
                              | Some s \<Rightarrow> s),
                    starttime = start, endtime = end, event_url = None\<rparr>))"

text \<open>\<^verbatim>\<open>parse_ics_events\<close>: the inner loop over the event components of one result, and
  the outer loop over the results, both with the accumulator \<^verbatim>\<open>parsed_events\<close>. A payload
  the codec rejects raises; a payload without any component raises at \<^verbatim>\<open>cal[0]\<close>; a
  component that \<^verbatim>\<open>get_event_details\<close> fails on raises.\<close>

fun decode_vevents ::
  "'s CalDavInterface \<Rightarrow> runtime \<Rightarrow> string \<Rightarrow> event list \<Rightarrow> component list
     \<Rightarrow> error + event list" where
  "decode_vevents self rt u parsed_events [] = Inr parsed_events"
| "decode_vevents self rt u parsed_events (vevent # vevents) =
     (case get_event_details self rt vevent of
        Inl e \<Rightarrow> Inl e
      | Inr event_details \<Rightarrow>
          decode_vevents self rt u
            (parsed_events @ [event_details\<lparr>event_url := Some u\<rparr>]) vevents)"

fun parse_loop ::
  "'s CalDavInterface \<Rightarrow> runtime \<Rightarrow> event list \<Rightarrow> raw_event list \<Rightarrow> error + event list" where
  "parse_loop self rt parsed_events [] = Inr parsed_events"
| "parse_loop self rt parsed_events (ev # evs) =
     (case data ev of
        Malformed \<Rightarrow> Inl ValueError
      | Decoded cal \<Rightarrow>
          (case cal of
             [] \<Rightarrow> Inl IndexError
           | c # _ \<Rightarrow>
               (case decode_vevents self rt (url ev) parsed_events (walk ''VEVENT'' c) of
                  Inl e \<Rightarrow> Inl e
                | Inr parsed \<Rightarrow> parse_loop self rt parsed evs)))"

definition parse_ics_events ::
  "'s CalDavInterface \<Rightarrow> runtime \<Rightarrow> raw_event list \<Rightarrow> error + event list" where
  "parse_ics_events self rt evs = parse_loop self rt [] evs"

definition get_events_for_timeperiod ::
  "'s CalDavInterface \<Rightarrow> runtime \<Rightarrow> 's \<Rightarrow> datetime \<Rightarrow> datetime \<Rightarrow> error + event list" where
  "get_events_for_timeperiod self rt s startdate enddate =
     (case date_search (calendar self) s startdate enddate of
        Inl e \<Rightarrow> Inl e
      | Inr evs \<Rightarrow> parse_ics_events self rt evs)"

definition get_events_for_date ::
  "'s CalDavInterface \<Rightarrow> runtime \<Rightarrow> 's \<Rightarrow> date \<Rightarrow> error + event list" where
  "get_events_for_date self rt s requested_date =
     get_events_for_timeperiod self rt s
       (combine requested_date min_time) (combine requested_date max_time)"

subsection \<open>The next event\<close>

text \<open>\<^verbatim>\<open>a < b\<close> on the starts of two events, where it does not fail.\<close>

definition start_lt :: "runtime \<Rightarrow> event \<Rightarrow> event \<Rightarrow> bool" where
  "start_lt rt a b =
     (case starttime a of
        None \<Rightarrow> False
      | Some x \<Rightarrow>
          (case starttime b of
             None \<Rightarrow> False
           | Some y \<Rightarrow> (case dt_lt rt x y of Inl _ \<Rightarrow> False | Inr r \<Rightarrow> r)))"

definition is_aware :: "event \<Rightarrow> bool" where
  "is_aware e = (case starttime e of None \<Rightarrow> False | Some x \<Rightarrow> tzinfo x \<noteq> None)"

text \<open>A comparison orders a list consistently when on its entries it is transitive and
  its negation is transitive.\<close>

definition consistent :: "('a \<Rightarrow> 'a \<Rightarrow> bool) \<Rightarrow> 'a list \<Rightarrow> bool" where
  "consistent lt es =
     list_all (\<lambda>a. list_all (\<lambda>b. list_all (\<lambda>c.
         (lt a b \<and> lt b c \<longrightarrow> lt a c) \<and> (\<not> lt a b \<and> \<not> lt b c \<longrightarrow> \<not> lt a c)) es) es) es"

text \<open>The stable ascending arrangement under a comparison: every entry goes before the
  first entry that is not less than it.\<close>

fun insort_lt :: "('a \<Rightarrow> 'a \<Rightarrow> bool) \<Rightarrow> 'a \<Rightarrow> 'a list \<Rightarrow> 'a list" where
  "insort_lt lt x [] = [x]"
| "insort_lt lt x (y # ys) = (if lt y x then y # insort_lt lt x ys else x # y # ys)"

definition sort_lt :: "('a \<Rightarrow> 'a \<Rightarrow> bool) \<Rightarrow> 'a list \<Rightarrow> 'a list" where
  "sort_lt lt xs = foldr (insort_lt lt) xs []"

text \<open>\<^verbatim>\<open>sorted(parsed_events, key=lambda i: i["starttime"])\<close>. A list of fewer than two
  entries is returned without a comparison. In a longer list every entry is compared
  with another one, and a comparison fails with TypeError when a key is \<open>None\<close> or when
  a naive value meets an aware one. Otherwise no comparison fails. Where the comparison
  orders the keys consistently the result is the stable ascending arrangement; where it
  does not, the result is the arrangement that the sorting algorithm happens to leave.\<close>

definition sorted_by_starttime :: "runtime \<Rightarrow> event list \<Rightarrow> error + event list" where
  "sorted_by_starttime rt es =
     (if length es < 2 then Inr es
      else if list_ex (\<lambda>e. starttime e = None) es then Inl TypeError
      else if list_ex is_aware es \<and> list_ex (\<lambda>e. \<not> is_aware e) es then Inl TypeError
      else if consistent (start_lt rt) es then Inr (sort_lt (start_lt rt) es)
      else Inr (timsort rt es))"

text \<open>The scan of \<^verbatim>\<open>get_next_event\<close>. The clock is read once in every round. The
  reading takes the zone object of the start, so the two are compared by wall clock.\<close>

fun next_scan :: "runtime \<Rightarrow> nat \<Rightarrow> event list \<Rightarrow> error + event option" where
  "next_scan rt k [] = Inr None"
| "next_scan rt k (e # es) =
     (case starttime e of
        None \<Rightarrow> Inl AttributeError
      | Some st \<Rightarrow>
          (let now = \<lparr>wall = today rt k, fold = False, tzinfo = None\<rparr>;
               current_time = replace_tzinfo now (tzinfo st)
           in case dt_gt rt st current_time of
                Inl err \<Rightarrow> Inl err
              | Inr True \<Rightarrow> Inr (Some e)
              | Inr False \<Rightarrow> next_scan rt (Suc k) es))"

definition get_next_event ::
  "'s CalDavInterface \<Rightarrow> runtime \<Rightarrow> 's \<Rightarrow> error + event option" where
  "get_next_event self rt s =
     (case events (calendar self) s of
        Inl e \<Rightarrow> Inl e
      | Inr all_events \<Rightarrow>
          (case parse_ics_events self rt all_events of
             Inl e \<Rightarrow> Inl e
           | Inr parsed_events \<Rightarrow>
               (case sorted_by_starttime rt parsed_events of
                  Inl e \<Rightarrow> Inl e
                | Inr sorted_events \<Rightarrow> next_scan rt 0 sorted_events)))"

subsection \<open>Search by title\<close>

text \<open>\<^verbatim>\<open>str.lower\<close>. Text of ASCII characters only has its capital letters moved to
  small ones. In other text every code point is replaced by its full lower-case
  mapping, but for the capital sigma (931), which becomes the final small sigma (962)
  when a cased character stands before it and none after it, characters that case
  ignores being skipped on both sides, and the small sigma (963) otherwise. \<open>before\<close> is
  the text in front of the position, last character first.\<close>

definition ascii_lower :: "nat \<Rightarrow> nat" where
  "ascii_lower c = (if 65 \<le> c \<and> c \<le> 90 then c + 32 else c)"

definition final_sigma :: "runtime \<Rightarrow> ustring \<Rightarrow> ustring \<Rightarrow> bool" where
  "final_sigma rt before after =
     ((case dropWhile (is_case_ignorable rt) before of [] \<Rightarrow> False | c # _ \<Rightarrow> is_cased rt c)
      \<and> (case dropWhile (is_case_ignorable rt) after of [] \<Rightarrow> True | c # _ \<Rightarrow> \<not> is_cased rt c))"

fun lower_from :: "runtime \<Rightarrow> ustring \<Rightarrow> ustring \<Rightarrow> ustring" where
  "lower_from rt before [] = []"
| "lower_from rt before (c # after) =
     (if c = 931 then [if final_sigma rt before after then 962 else 963]
      else tolower_full rt c)
     @ lower_from rt (c # before) after"

definition lower :: "runtime \<Rightarrow> ustring \<Rightarrow> ustring" where
  "lower rt s = (if list_all (\<lambda>c. c < 128) s then map ascii_lower s else lower_from rt [] s)"

text \<open>\<^verbatim>\<open>a in b\<close> on text: \<open>a\<close> starts at some position of \<open>b\<close>.\<close>

fun str_in :: "ustring \<Rightarrow> ustring \<Rightarrow> bool" where
  "str_in a [] = (a = [])"
| "str_in a (c # cs) = (take (length a) (c # cs) = a \<or> str_in a cs)"

definition get_events_with_title ::
  "'s CalDavInterface \<Rightarrow> runtime \<Rightarrow> 's \<Rightarrow> ustring \<Rightarrow> error + event list" where
  "get_events_with_title self rt s t =
     (case events (calendar self) s of
        Inl e \<Rightarrow> Inl e
      | Inr all_events \<Rightarrow>
          (case parse_ics_events self rt all_events of
             Inl e \<Rightarrow> Inl e
           | Inr parsed_events \<Rightarrow>
               Inr (filter (\<lambda>event. str_in (lower rt t) (lower rt (title event)))
                      parsed_events)))"

subsection \<open>Creating, deleting, renaming\<close>

text \<open>The \<^verbatim>\<open>duration\<close> argument: a whole number, a floating-point number, or a time
  span. A floating-point number is kept as what \<^verbatim>\<open>dt.timedelta\<close> makes of it, a failure
  or a span. The source passes a number to \<^verbatim>\<open>dt.timedelta\<close>, where a time span is a
  TypeError, and adds a time span to the start, where a number is a TypeError.\<close>

datatype duration = Int_days int | Float_days "error + int" | Timedelta int

definition new_calendar :: "ustring \<Rightarrow> dt_value \<Rightarrow> dt_value \<Rightarrow> component" where
  "new_calendar summary dtstart dtend =
     Component ''VCALENDAR'' no_properties
       [Component ''VEVENT'' \<lparr>DTSTART = Some dtstart, DTEND = Some dtend, SUMMARY = Some summary\<rparr> []]"

definition create_new_event ::
  "'s CalDavInterface \<Rightarrow> 's \<Rightarrow> ustring \<Rightarrow> datetime \<Rightarrow> duration \<Rightarrow> bool \<Rightarrow> error + 's" where
  "create_new_event self s summary date duration fullday =
     (if fullday then
        (case
           (case duration of
              Timedelta _ \<Rightarrow> Inl TypeError
            | Int_days n \<Rightarrow> timedelta n
            | Float_days made \<Rightarrow> made)
         of
           Inl e \<Rightarrow> Inl e
         | Inr span \<Rightarrow>
             (case dt_add date span of
                Inl e \<Rightarrow> Inl e
              | Inr moved \<Rightarrow>
                  add_event (calendar self) s
                    (new_calendar summary (Date (date_of date)) (Date (date_of moved)))))
      else
        (case duration of
           Int_days _ \<Rightarrow> Inl TypeError
         | Float_days _ \<Rightarrow> Inl TypeError
         | Timedelta span \<Rightarrow>
             (case dt_add date span of
                Inl e \<Rightarrow> Inl e
              | Inr end \<Rightarrow>
                  add_event (calendar self) s
                    (new_calendar summary (Datetime date) (Datetime end)))))"

text \<open>The Event mapping is passed by reference, so \<^verbatim>\<open>delete_event\<close> and
  \<^verbatim>\<open>rename_event\<close> return it, as it is after the call, beside their outcome.\<close>

definition delete_event :: "'s CalDavInterface \<Rightarrow> 's \<Rightarrow> event \<Rightarrow> event \<times> (error + 's)" where
  "delete_event self s event =
     (event,
      case event_url event of
        None \<Rightarrow> Inl KeyError
      | Some u \<Rightarrow>
          (case event_by_url (calendar self) s u of
             Inl e \<Rightarrow> Inl e
           | Inr caldav_event \<Rightarrow> delete (calendar self) s caldav_event))"

definition rename_event ::
  "'s CalDavInterface \<Rightarrow> 's \<Rightarrow> event \<Rightarrow> ustring \<Rightarrow> event \<times> (error + 's)" where
  "rename_event self s event new_title =
     (event,
      case event_url event of
        None \<Rightarrow> Inl KeyError
      | Some u \<Rightarrow>
          (case event_by_url (calendar self) s u of
             Inl e \<Rightarrow> Inl e
           | Inr caldav_event \<Rightarrow>
               (case set_summary (calendar self) caldav_event new_title of
                  Inl e \<Rightarrow> Inl e
                | Inr renamed \<Rightarrow> save (calendar self) s renamed)))"

section \<open>Surroundings to run the client in\<close>

subsection \<open>A calendar in memory\<close>

text \<open>A transport whose remote state is the list of stored objects.\<close>

definition memory_calendar :: "raw_event list transport" where
  "memory_calendar =
     \<lparr>events = (\<lambda>s. Inr s),
      date_search = (\<lambda>s a b. Inr s),
      event_by_url =
        (\<lambda>s u. case find (\<lambda>r. url r = u) s of None \<Rightarrow> Inl NotFoundError | Some r \<Rightarrow> Inr r),
      add_event = (\<lambda>s c. Inr (s @ [\<lparr>url = ''new'', data = Decoded [c]\<rparr>])),
      delete = (\<lambda>s r. Inr (filter (\<lambda>x. url x \<noteq> url r) s)),
      set_summary = (\<lambda>r t. Inr r),
      save = (\<lambda>s r. Inr (map (\<lambda>x. if url x = url r then r else x) s))\<rparr>"

definition client :: "timezone \<Rightarrow> raw_event list CalDavInterface" where
  "client tz = \<lparr>local_timezone = tz, calendar = memory_calendar\<rparr>"

subsection \<open>Calendar dates and clock times\<close>

text \<open>The day number of a calendar date, as \<^verbatim>\<open>date.toordinal()\<close> counts it, and the wall
  clock of a date with hours and minutes.\<close>

definition is_leap :: "int \<Rightarrow> bool" where
  "is_leap y = (y mod 4 = 0 \<and> (y mod 100 \<noteq> 0 \<or> y mod 400 = 0))"

definition days_before_year :: "int \<Rightarrow> int" where
  "days_before_year y = (y - 1) * 365 + (y - 1) div 4 - (y - 1) div 100 + (y - 1) div 400"

definition days_before_month :: "int \<Rightarrow> nat \<Rightarrow> int" where
  "days_before_month y m =
     sum_list (take (m - 1) [31, 28, 31, 30, 31, 30, 31, 31, 30, 31, 30, 31])
       + (if 2 < m \<and> is_leap y then 1 else 0)"

definition ymd :: "int \<Rightarrow> nat \<Rightarrow> int \<Rightarrow> date" where
  "ymd y m d = days_before_year y + days_before_month y m + d"

definition hours :: "int \<Rightarrow> int" where
  "hours n = n * 3600000000"

definition clock :: "int \<Rightarrow> nat \<Rightarrow> int \<Rightarrow> int \<Rightarrow> int \<Rightarrow> int" where
  "clock y m d hh mm = ymd y m d * usec_per_day + hh * 3600000000 + mm * 60000000"

subsection \<open>Berlin on 27 October 2024\<close>

text \<open>At 01:00 UTC of 27 October 2024 the clocks of Berlin go back from 03:00, two hours
  east of UTC, to 02:00, one hour east of UTC. The zone as \<^verbatim>\<open>zoneinfo\<close> gives it is one
  zone object, 7, that answers with the offset of the wall clock and, between 02:00 and
  03:00, of the fold flag. The zone as \<^verbatim>\<open>pytz\<close> gives it is a zone object, 10, that
  attaches the object 11 for summer time and the object 12 for winter time.\<close>

definition berlin_zoneinfo :: timezone where
  "berlin_zoneinfo =
     \<lparr>tz_ref = 7,
      offset_at = (\<lambda>u. if u < clock 2024 10 27 1 0 then hours 2 else hours 1),
      fold_at = (\<lambda>u. clock 2024 10 27 1 0 \<le> u \<and> u < clock 2024 10 27 2 0),
      object_at = (\<lambda>u. 7)\<rparr>"

definition berlin_pytz :: timezone where
  "berlin_pytz =
     \<lparr>tz_ref = 10,
      offset_at = (\<lambda>u. if u < clock 2024 10 27 1 0 then hours 2 else hours 1),
      fold_at = (\<lambda>u. False),
      object_at = (\<lambda>u. if u < clock 2024 10 27 1 0 then 11 else 12)\<rparr>"

text \<open>A runtime with these zone objects, an operating system on UTC, a clock that
  stands at 02:00 of that day, and the entries of the character database for the
  ASCII letters and the Greek letters alpha and sigma.\<close>

definition sample_runtime :: runtime where
  "sample_runtime =
     \<lparr>utcoffset =
        (\<lambda>z w f.
           if z = 7 then
             (if w < clock 2024 10 27 2 0 then hours 2
              else if w < clock 2024 10 27 3 0 then (if f then hours 1 else hours 2)
              else hours 1)
           else if z = 11 then hours 2
           else if z = 12 then hours 1
           else 0),
      localtime = (\<lambda>w f. Inr 0),
      today = (\<lambda>k. clock 2024 10 27 2 0),
      timsort = (\<lambda>es. es),
      tolower_full =
        (\<lambda>c. if 65 \<le> c \<and> c \<le> 90 then [c + 32]
             else if c = 913 then [945]
             else [c]),
      is_cased =
        (\<lambda>c. (65 \<le> c \<and> c \<le> 90) \<or> (97 \<le> c \<and> c \<le> 122)
             \<or> c = 913 \<or> c = 931 \<or> c = 945 \<or> c = 962 \<or> c = 963),
      is_case_ignorable = (\<lambda>c. c = 39 \<or> c = 46 \<or> c = 58 \<or> c = 94 \<or> c = 96)\<rparr>"

subsection \<open>Events to run the client on\<close>

text \<open>An event component with a summary and a start given in UTC. Three events around
  the change of the clocks, as the transport holds them, and as they are decoded, with
  the fold flag and the zone object that the zone of the client attaches.\<close>

definition vevent :: "string \<Rightarrow> int \<Rightarrow> component" where
  "vevent summary start =
     Component ''VEVENT''
       \<lparr>DTSTART = Some (Datetime \<lparr>wall = start, fold = False, tzinfo = Some Utc\<rparr>),
          DTEND = None, SUMMARY = Some (str summary)\<rparr> []"

definition autumn_calendar :: "raw_event list" where
  "autumn_calendar =
     [\<lparr>url = ''u1'', data = Decoded [Component ''VCALENDAR'' no_properties
        [vevent ''Team Meeting'' (clock 2024 10 27 0 30)]]\<rparr>,
      \<lparr>url = ''u2'', data = Decoded [Component ''VCALENDAR'' no_properties
        [vevent ''Lunch'' (clock 2024 10 27 1 10)]]\<rparr>,
      \<lparr>url = ''u3'', data = Decoded [Component ''VCALENDAR'' no_properties
        [vevent ''Meetup'' (clock 2024 10 26 10 0)]]\<rparr>]"

definition meeting :: "bool \<Rightarrow> nat \<Rightarrow> event" where
  "meeting f z =
     \<lparr>title = str ''Team Meeting'',
      starttime = Some \<lparr>wall = clock 2024 10 27 2 30, fold = f, tzinfo = Some z\<rparr>,
      endtime = None, event_url = Some ''u1''\<rparr>"

definition lunch :: "bool \<Rightarrow> nat \<Rightarrow> event" where
  "lunch f z =
     \<lparr>title = str ''Lunch'',
      starttime = Some \<lparr>wall = clock 2024 10 27 2 10, fold = f, tzinfo = Some z\<rparr>,
      endtime = None, event_url = Some ''u2''\<rparr>"

definition meetup :: "bool \<Rightarrow> nat \<Rightarrow> event" where
  "meetup f z =
     \<lparr>title = str ''Meetup'',
      starttime = Some \<lparr>wall = clock 2024 10 26 12 0, fold = f, tzinfo = Some z\<rparr>,
      endtime = None, event_url = Some ''u3''\<rparr>"

text \<open>An event without a start; an event whose title is capital alpha, capital sigma; a
  payload with two calendar objects; a payload whose calendar object holds an event with
  an alarm, a task, and another event; an all-day event without a summary; a zone five
  hours west of UTC.\<close>

definition undated_calendar :: "raw_event list" where
  "undated_calendar =
     [\<lparr>url = ''u4'', data = Decoded [Component ''VCALENDAR'' no_properties
        [Component ''VEVENT''
           \<lparr>DTSTART = None, DTEND = None, SUMMARY = Some (str ''Someday'')\<rparr> []]]\<rparr>]"

definition undated_events :: "event list" where
  "undated_events =
     [\<lparr>title = str ''Someday'', starttime = None, endtime = None, event_url = Some ''u4''\<rparr>]"

definition sigma_calendar :: "raw_event list" where
  "sigma_calendar =
     [\<lparr>url = ''u5'', data = Decoded [Component ''VCALENDAR'' no_properties
        [Component ''VEVENT'' \<lparr>DTSTART = None, DTEND = None, SUMMARY = Some [913, 931]\<rparr> []]]\<rparr>]"

definition two_calendars :: raw_event where
  "two_calendars =
     \<lparr>url = ''u6'',
      data = Decoded
        [Component ''VCALENDAR'' no_properties
           [Component ''VEVENT''
              \<lparr>DTSTART = None, DTEND = None, SUMMARY = Some (str ''first'')\<rparr> []],
         Component ''VCALENDAR'' no_properties
           [Component ''VEVENT''
              \<lparr>DTSTART = None, DTEND = None, SUMMARY = Some (str ''second'')\<rparr> []]]\<rparr>"

definition nested_calendar :: raw_event where
  "nested_calendar =
     \<lparr>url = ''u7'',
      data = Decoded
        [Component ''VCALENDAR'' no_properties
           [Component ''VEVENT'' \<lparr>DTSTART = None, DTEND = None, SUMMARY = None\<rparr>
              [Component ''VALARM'' no_properties []],
            Component ''VTODO'' no_properties [],
            Component ''VEVENT''
              \<lparr>DTSTART = None, DTEND = None, SUMMARY = Some (str ''third'')\<rparr> []]]\<rparr>"

definition holiday :: component where
  "holiday =
     Component ''VEVENT''
       \<lparr>DTSTART = Some (Date (ymd 2024 6 1)),
          DTEND = Some (Datetime \<lparr>wall = clock 2024 6 4 10 0, fold = False, tzinfo = Some Utc\<rparr>),
          SUMMARY = None\<rparr> []"

definition new_york :: timezone where
  "new_york =
     \<lparr>tz_ref = 20, offset_at = (\<lambda>u. hours (- 5)), fold_at = (\<lambda>u. False), object_at = (\<lambda>u. 20)\<rparr>"

section \<open>Notions of the specification\<close>


text \<open>A transport result whose payload the codec decodes to at least one component,
  the event components that the first of these components embeds, the event components
  that the payload embeds at all, and the decoding of one event component of a result
  with the identifier of the result attached.\<close>

definition has_calendar :: "raw_event \<Rightarrow> bool" where
  "has_calendar r = (case data r of Malformed \<Rightarrow> False | Decoded cal \<Rightarrow> cal \<noteq> [])"

definition first_calendar_events :: "raw_event \<Rightarrow> component list" where
  "first_calendar_events r =
     (case data r of Malformed \<Rightarrow> [] | Decoded cal \<Rightarrow>
        (case cal of [] \<Rightarrow> [] | c # _ \<Rightarrow> walk ''VEVENT'' c))"

definition embedded_events :: "raw_event \<Rightarrow> component list" where
  "embedded_events r =
     (case data r of Malformed \<Rightarrow> [] | Decoded cal \<Rightarrow> concat (map (walk ''VEVENT'') cal))"

definition decoded_for :: "'s CalDavInterface \<Rightarrow> runtime \<Rightarrow> raw_event \<Rightarrow> component \<Rightarrow> error + event" where
  "decoded_for self rt r v =
     (case get_event_details self rt v of
        Inl e \<Rightarrow> Inl e
      | Inr d \<Rightarrow> Inr (d\<lparr>event_url := Some (url r)\<rparr>))"

text \<open>The instant of UTC that an aware value stands for. An event starts after a clock
  reading when its start is a later instant than the reading taken with the zone
  object of the start. An event starts no later than another one when its start is not
  the later instant of the two. A zone object has a fixed offset when it answers with
  the same offset for every wall clock.\<close>

definition instant :: "runtime \<Rightarrow> datetime \<Rightarrow> int" where
  "instant rt x =
     (case tzinfo x of None \<Rightarrow> wall x | Some z \<Rightarrow> wall x - tz_offset rt z (wall x) (fold x))"

definition starts_after :: "runtime \<Rightarrow> int \<Rightarrow> event \<Rightarrow> bool" where
  "starts_after rt now e =
     (case starttime e of
        None \<Rightarrow> False
      | Some st \<Rightarrow> instant rt \<lparr>wall = now, fold = False, tzinfo = tzinfo st\<rparr> < instant rt st)"

definition starts_no_later :: "runtime \<Rightarrow> event \<Rightarrow> event \<Rightarrow> bool" where
  "starts_no_later rt e e' =
     (case starttime e of
        None \<Rightarrow> False
      | Some a \<Rightarrow> (case starttime e' of None \<Rightarrow> False | Some b \<Rightarrow> instant rt a \<le> instant rt b))"

definition fixed_offset :: "runtime \<Rightarrow> nat \<Rightarrow> bool" where
  "fixed_offset rt z = (\<forall>w f. tz_offset rt z w f = tz_offset rt z 0 False)"

definition fixed_start :: "runtime \<Rightarrow> event \<Rightarrow> bool" where
  "fixed_start rt e =
     (case starttime e of
        None \<Rightarrow> False
      | Some st \<Rightarrow> (case tzinfo st of None \<Rightarrow> False | Some z \<Rightarrow> fixed_offset rt z))"

definition start_instant :: "runtime \<Rightarrow> event \<Rightarrow> int" where
  "start_instant rt e = (case starttime e of None \<Rightarrow> 0 | Some st \<Rightarrow> instant rt st)"

text \<open>A text contains another one after lowering when the lowered other one occurs in
  the lowered text. A text contains another one, case ignored, when a segment of it
  equals the other one up to the case of the ASCII letters.\<close>

definition is_ascii :: "ustring \<Rightarrow> bool" where
  "is_ascii s = list_all (\<lambda>c. c < 128) s"

definition contains_lowered :: "runtime \<Rightarrow> ustring \<Rightarrow> ustring \<Rightarrow> bool" where
  "contains_lowered rt s t = (\<exists>p q. lower rt s = p @ lower rt t @ q)"

definition contains_ignoring_case :: "ustring \<Rightarrow> ustring \<Rightarrow> bool" where
  "contains_ignoring_case s t =
     (\<exists>p u q. s = p @ u @ q \<and> map ascii_lower u = map ascii_lower t)"

section \<open>Properties\<close>

lemmas clock_simps = clock_def hours_def ymd_def days_before_year_def days_before_month_def
  is_leap_def usec_per_day_def in_range_def

lemmas run_simps = parse_ics_events_def get_event_details_def astimezone_def fromutc_def
  offset_of_def tz_offset_def Utc_def client_def memory_calendar_def no_properties_def
  vevent_def berlin_pytz_def berlin_zoneinfo_def sample_runtime_def

lemma memory_fetch:
  "events (calendar (client tz)) s = Inr s"
  by (simp add: client_def memory_calendar_def)

subsection \<open>Decoding one event\<close>


lemma astimezone_aware:
  "astimezone rt x tz = Inr y \<Longrightarrow> tzinfo y \<noteq> None"
  by (auto simp: astimezone_def fromutc_def split: if_splits sum.splits)

lemma get_event_details_aware:
  "get_event_details self rt v = Inr d \<Longrightarrow> starttime d = Some st \<Longrightarrow> tzinfo st \<noteq> None"
  by (auto simp: get_event_details_def replace_tzinfo_def
      dest: astimezone_aware split: sum.splits option.splits dt_value.splits)

lemma holiday_decoded:
  "get_event_details (client berlin_pytz) sample_runtime holiday
     = Inr \<lparr>title = str ''untitled event'',
            starttime = Some \<lparr>wall = clock 2024 6 1 0 0, fold = False, tzinfo = Some Utc\<rparr>,
            endtime = Some \<lparr>wall = clock 2024 6 4 12 0, fold = False, tzinfo = Some 11\<rparr>,
            event_url = None\<rparr>"
  by (simp add: holiday_def get_event_details_def astimezone_def fromutc_def offset_of_def
      tz_offset_def Utc_def client_def berlin_pytz_def combine_def replace_tzinfo_def
      min_time_def clock_simps)

text \<open>The decoding fails on a timestamp of the first day of year 1 for a client west of
  UTC, on a repeated field, and on a field that holds a duration.\<close>

lemma get_event_details_failures:
  "get_event_details (client new_york) sample_runtime
     (Component ''VEVENT''
        \<lparr>DTSTART = Some (Datetime \<lparr>wall = clock 1 1 1 0 0, fold = False, tzinfo = Some Utc\<rparr>),
           DTEND = None, SUMMARY = None\<rparr> []) = Inl OverflowError"
  "get_event_details (client new_york) sample_runtime
     (Component ''VEVENT'' \<lparr>DTSTART = Some No_dt, DTEND = None, SUMMARY = None\<rparr> [])
     = Inl AttributeError"
  "get_event_details (client new_york) sample_runtime
     (Component ''VEVENT'' \<lparr>DTSTART = None, DTEND = Some Not_a_date, SUMMARY = None\<rparr> [])
     = Inl TypeError"
  by (simp_all add: get_event_details_def astimezone_def fromutc_def offset_of_def
      tz_offset_def Utc_def client_def new_york_def clock_simps)

text \<open>
  Claim C9. Whenever \<^verbatim>\<open>get_event_details\<close> returns for an event component without a
  summary field, the title of the Event mapping it returns is exactly
  \<^verbatim>\<open>untitled event\<close>.
\<close>

theorem get_event_details_untitled:
  "get_event_details self rt ev = Inr e \<Longrightarrow> SUMMARY (properties_of ev) = None \<Longrightarrow>
   title e = str ''untitled event''"
  by (auto simp: get_event_details_def split: sum.splits)

theorem get_event_details_untitled_witness:
  "title \<lparr>title = str ''untitled event'',
          starttime = Some \<lparr>wall = clock 2024 6 1 0 0, fold = False, tzinfo = Some Utc\<rparr>,
          endtime = Some \<lparr>wall = clock 2024 6 4 12 0, fold = False, tzinfo = Some 11\<rparr>,
          event_url = None\<rparr> = str ''untitled event''
   \<and> SUMMARY (properties_of holiday) = None"
proof -
  have s: "SUMMARY (properties_of holiday) = None"
    by (simp add: holiday_def)
  show ?thesis
    using get_event_details_untitled [OF holiday_decoded s] s by simp
qed



subsection \<open>Decoding a batch\<close>

lemma decode_vevents_iff:
  "(decode_vevents self rt u acc vs = Inr out) =
     (\<exists>ds. map (get_event_details self rt) vs = map Inr ds
        \<and> out = acc @ map (\<lambda>d. d\<lparr>event_url := Some u\<rparr>) ds)"
proof (induction vs arbitrary: acc)
  case Nil
  then show ?case by auto
next
  case (Cons v vs)
  show ?case
  proof (cases "get_event_details self rt v")
    case (Inl e)
    then show ?thesis by (auto simp: map_eq_Cons_conv)
  next
    case (Inr d)
    show ?thesis
    proof
      assume "decode_vevents self rt u acc (v # vs) = Inr out"
      then obtain ds where "map (get_event_details self rt) vs = map Inr ds"
        and "out = (acc @ [d\<lparr>event_url := Some u\<rparr>]) @ map (\<lambda>d. d\<lparr>event_url := Some u\<rparr>) ds"
        using Inr Cons.IH by auto
      then have "map (get_event_details self rt) (v # vs) = map Inr (d # ds)
          \<and> out = acc @ map (\<lambda>d. d\<lparr>event_url := Some u\<rparr>) (d # ds)"
        using Inr by simp
      then show "\<exists>ds. map (get_event_details self rt) (v # vs) = map Inr ds
          \<and> out = acc @ map (\<lambda>d. d\<lparr>event_url := Some u\<rparr>) ds"
        by blast
    next
      assume "\<exists>ds. map (get_event_details self rt) (v # vs) = map Inr ds
          \<and> out = acc @ map (\<lambda>d. d\<lparr>event_url := Some u\<rparr>) ds"
      then obtain ds where m: "map (get_event_details self rt) (v # vs) = map Inr ds"
        and o: "out = acc @ map (\<lambda>d. d\<lparr>event_url := Some u\<rparr>) ds"
        by blast
      from m Inr obtain ds' where ds: "ds = d # ds'"
        and m': "map (get_event_details self rt) vs = map Inr ds'"
        by (cases ds) auto
      have "out = (acc @ [d\<lparr>event_url := Some u\<rparr>]) @ map (\<lambda>d. d\<lparr>event_url := Some u\<rparr>) ds'"
        using o ds by simp
      then show "decode_vevents self rt u acc (v # vs) = Inr out"
        using Inr m' Cons.IH by auto
    qed
  qed
qed

lemma decoded_for_map:
  "(map (decoded_for self rt r) vs = map Inr new) =
     (\<exists>ds. map (get_event_details self rt) vs = map Inr ds
        \<and> new = map (\<lambda>d. d\<lparr>event_url := Some (url r)\<rparr>) ds)"
proof (induction vs arbitrary: new)
  case Nil
  then show ?case by auto
next
  case (Cons v vs)
  show ?case
  proof (cases "get_event_details self rt v")
    case (Inl e)
    then show ?thesis by (auto simp: decoded_for_def map_eq_Cons_conv)
  next
    case (Inr d)
    show ?thesis
    proof (cases new)
      case Nil
      then show ?thesis by auto
    next
      case (Cons n ns)
      show ?thesis
        using Inr Cons Cons.IH [of ns]
        by (auto simp: decoded_for_def map_eq_Cons_conv Cons_eq_map_conv)
    qed
  qed
qed

lemma parse_loop_Cons:
  "data r = Decoded (c # cs) \<Longrightarrow>
   parse_loop self rt acc (r # rs) =
     (case decode_vevents self rt (url r) acc (walk ''VEVENT'' c) of
        Inl e \<Rightarrow> Inl e | Inr parsed \<Rightarrow> parse_loop self rt parsed rs)"
  by simp

lemma parse_loop_no_calendar:
  "\<not> has_calendar r \<Longrightarrow> parse_loop self rt acc (r # rs) \<noteq> Inr out"
  by (cases "data r") (auto simp: has_calendar_def split: list.splits)

lemma has_calendarD:
  "has_calendar r \<Longrightarrow> \<exists>c cs. data r = Decoded (c # cs)"
  by (cases "data r") (auto simp: has_calendar_def neq_Nil_conv)

lemma first_calendar_events_Decoded:
  "data r = Decoded (c # cs) \<Longrightarrow> first_calendar_events r = walk ''VEVENT'' c"
  by (simp add: first_calendar_events_def)

lemma parse_loop_forward:
  "parse_loop self rt acc rs = Inr out \<Longrightarrow>
     list_all has_calendar rs
      \<and> (\<exists>new. map Inr new
              = concat (map (\<lambda>r. map (decoded_for self rt r) (first_calendar_events r)) rs)
            \<and> out = acc @ new)"
proof (induction rs arbitrary: acc)
  case Nil
  then show ?case by simp
next
  case (Cons r rs)
  have hc: "has_calendar r"
    using Cons.prems parse_loop_no_calendar by blast
  then obtain c cs where d: "data r = Decoded (c # cs)"
    using has_calendarD by blast
  note f = first_calendar_events_Decoded [OF d]
  from Cons.prems obtain mid where m: "decode_vevents self rt (url r) acc (walk ''VEVENT'' c) = Inr mid"
    and rest: "parse_loop self rt mid rs = Inr out"
    unfolding parse_loop_Cons [OF d]
    by (cases "decode_vevents self rt (url r) acc (walk ''VEVENT'' c)") simp_all
  from m obtain ds where ds: "map (get_event_details self rt) (walk ''VEVENT'' c) = map Inr ds"
    and mid: "mid = acc @ map (\<lambda>d. d\<lparr>event_url := Some (url r)\<rparr>) ds"
    unfolding decode_vevents_iff by blast
  from Cons.IH [OF rest] obtain new where all: "list_all has_calendar rs"
    and new: "map Inr new
      = concat (map (\<lambda>r. map (decoded_for self rt r) (first_calendar_events r)) rs)"
    and out: "out = mid @ new"
    by blast
  let ?here = "map (\<lambda>d. d\<lparr>event_url := Some (url r)\<rparr>) ds"
  have "map (decoded_for self rt r) (walk ''VEVENT'' c) = map Inr ?here"
    unfolding decoded_for_map using ds by blast
  then have a: "map Inr (?here @ new)
      = concat (map (\<lambda>r. map (decoded_for self rt r) (first_calendar_events r)) (r # rs))"
    using f new by simp
  have b: "out = acc @ (?here @ new)"
    using out mid by simp
  show ?case
    using hc all a b by (intro conjI exI [of _ "?here @ new"]) simp_all
qed

lemma parse_loop_backward:
  "list_all has_calendar rs \<Longrightarrow>
   map Inr new = concat (map (\<lambda>r. map (decoded_for self rt r) (first_calendar_events r)) rs) \<Longrightarrow>
   parse_loop self rt acc rs = Inr (acc @ new)"
proof (induction rs arbitrary: acc new)
  case Nil
  then show ?case by simp
next
  case (Cons r rs)
  from Cons.prems(1) have hc: "has_calendar r" and all: "list_all has_calendar rs"
    by simp_all
  from hc obtain c cs where d: "data r = Decoded (c # cs)"
    using has_calendarD by blast
  note f = first_calendar_events_Decoded [OF d]
  let ?rest = "concat (map (\<lambda>r. map (decoded_for self rt r) (first_calendar_events r)) rs)"
  have "map Inr new = map (decoded_for self rt r) (walk ''VEVENT'' c) @ ?rest"
    using Cons.prems(2) f by simp
  then obtain here later where split: "new = here @ later"
    and here: "map (decoded_for self rt r) (walk ''VEVENT'' c) = map Inr here"
    and later: "map Inr later = ?rest"
    unfolding map_eq_append_conv by metis
  from here obtain ds where ds: "map (get_event_details self rt) (walk ''VEVENT'' c) = map Inr ds"
    and h: "here = map (\<lambda>d. d\<lparr>event_url := Some (url r)\<rparr>) ds"
    unfolding decoded_for_map by blast
  have m: "decode_vevents self rt (url r) acc (walk ''VEVENT'' c) = Inr (acc @ here)"
    unfolding decode_vevents_iff using ds h by blast
  have "parse_loop self rt (acc @ here) rs = Inr ((acc @ here) @ later)"
    using all later by (rule Cons.IH)
  then show ?case
    unfolding parse_loop_Cons [OF d] using m split by simp
qed

lemma parse_ics_events_member:
  assumes "parse_ics_events self rt rs = Inr evs" "e \<in> set evs"
  shows "\<exists>r v. decoded_for self rt r v = Inr e"
proof -
  from assms(1) obtain new where eq: "map Inr new
      = concat (map (\<lambda>r. map (decoded_for self rt r) (first_calendar_events r)) rs)"
    and evs: "evs = [] @ new"
    unfolding parse_ics_events_def using parse_loop_forward by blast
  have "Inr e
      \<in> set (concat (map (\<lambda>r. map (decoded_for self rt r) (first_calendar_events r)) rs))"
    by (subst eq [symmetric]) (use assms(2) evs in simp)
  then obtain r v where "decoded_for self rt r v = Inr e"
    by (auto simp: eq_commute [of "Inr e"])
  then show ?thesis by blast
qed

text \<open>
  Claim C8, as amended. \<^verbatim>\<open>parse_ics_events\<close> returns exactly when every payload decodes
  to at least one component and every event component embedded in the first component
  of every payload is decoded without failure. What it returns is then, in the order of
  the results, one Event mapping for every event component that the first component of
  the result's payload embeds, each with the identifier of its result as
  \<^verbatim>\<open>event_url\<close>.
\<close>

theorem parse_ics_events_first_calendar:
  "(parse_ics_events self rt rs = Inr evs) =
     (list_all has_calendar rs
      \<and> map Inr evs
          = concat (map (\<lambda>r. map (decoded_for self rt r) (first_calendar_events r)) rs))"
proof
  assume "parse_ics_events self rt rs = Inr evs"
  then show "list_all has_calendar rs
      \<and> map Inr evs
          = concat (map (\<lambda>r. map (decoded_for self rt r) (first_calendar_events r)) rs)"
    unfolding parse_ics_events_def using parse_loop_forward [of self rt "[]" rs evs] by auto
next
  assume "list_all has_calendar rs
      \<and> map Inr evs
          = concat (map (\<lambda>r. map (decoded_for self rt r) (first_calendar_events r)) rs)"
  then show "parse_ics_events self rt rs = Inr evs"
    unfolding parse_ics_events_def using parse_loop_backward [of rs evs self rt "[]"] by simp
qed

theorem parse_ics_events_first_calendar_witness:
  "parse_ics_events (client berlin_pytz) sample_runtime [two_calendars, nested_calendar]
     = Inr [\<lparr>title = str ''first'', starttime = None, endtime = None, event_url = Some ''u6''\<rparr>,
            \<lparr>title = str ''untitled event'', starttime = None, endtime = None,
               event_url = Some ''u7''\<rparr>,
            \<lparr>title = str ''third'', starttime = None, endtime = None, event_url = Some ''u7''\<rparr>]"
  using parse_ics_events_first_calendar
    [of "client berlin_pytz" sample_runtime "[two_calendars, nested_calendar]"
        "[\<lparr>title = str ''first'', starttime = None, endtime = None, event_url = Some ''u6''\<rparr>,
          \<lparr>title = str ''untitled event'', starttime = None, endtime = None,
             event_url = Some ''u7''\<rparr>,
          \<lparr>title = str ''third'', starttime = None, endtime = None, event_url = Some ''u7''\<rparr>]"]
  by (simp add: has_calendar_def first_calendar_events_def decoded_for_def two_calendars_def
      nested_calendar_def get_event_details_def no_properties_def)

text \<open>The claim as it was stated fails on a payload with two calendar objects: the
  payload embeds two event components, and only the one of the first calendar object
  is decoded.\<close>

theorem parse_ics_events_later_calendar:
  "parse_ics_events (client berlin_pytz) sample_runtime [two_calendars]
     = Inr [\<lparr>title = str ''first'', starttime = None, endtime = None, event_url = Some ''u6''\<rparr>]
   \<and> length (embedded_events two_calendars) = 2"
  by (simp add: parse_ics_events_def two_calendars_def embedded_events_def get_event_details_def
      no_properties_def)

subsection \<open>The day query\<close>

text \<open>
  Claim C5. The events of a calendar date \<open>D\<close> are what the range query returns for the
  range from midnight of \<open>D\<close>, the first microsecond of the day, to the end of \<open>D\<close>, the
  last microsecond before the next midnight; both ends are naive instants.
\<close>

theorem get_events_for_date_range:
  "get_events_for_date self rt s D =
     get_events_for_timeperiod self rt s
       \<lparr>wall = D * usec_per_day, fold = False, tzinfo = None\<rparr>
       \<lparr>wall = (D + 1) * usec_per_day - 1, fold = False, tzinfo = None\<rparr>"
  by (simp add: get_events_for_date_def combine_def min_time_def max_time_def usec_per_day_def
      algebra_simps)

theorem get_events_for_date_range_witness:
  "get_events_for_date (client berlin_pytz) sample_runtime [] (ymd 2024 6 1) =
     get_events_for_timeperiod (client berlin_pytz) sample_runtime []
       \<lparr>wall = 63852883200000000, fold = False, tzinfo = None\<rparr>
       \<lparr>wall = 63852969599999999, fold = False, tzinfo = None\<rparr>"
  using get_events_for_date_range [of "client berlin_pytz" sample_runtime "[]" "ymd 2024 6 1"]
  by (simp add: ymd_def days_before_year_def days_before_month_def is_leap_def usec_per_day_def)

subsection \<open>The next event\<close>

lemma autumn_pytz:
  "parse_ics_events (client berlin_pytz) sample_runtime autumn_calendar
     = Inr [meeting False 11, lunch False 12, meetup False 11]"
  by (simp add: autumn_calendar_def meeting_def lunch_def meetup_def run_simps clock_simps)

lemma autumn_zoneinfo:
  "parse_ics_events (client berlin_zoneinfo) sample_runtime autumn_calendar
     = Inr [meeting False 7, lunch True 7, meetup False 7]"
  by (simp add: autumn_calendar_def meeting_def lunch_def meetup_def run_simps clock_simps)

lemma undated_parse:
  "parse_ics_events (client berlin_pytz) sample_runtime undated_calendar = Inr undated_events"
  by (simp add: undated_calendar_def undated_events_def run_simps)

lemma mixed_parse:
  "parse_ics_events (client berlin_pytz) sample_runtime (autumn_calendar @ undated_calendar)
     = Inr ([meeting False 11, lunch False 12, meetup False 11] @ undated_events)"
  by (simp add: autumn_calendar_def meeting_def lunch_def meetup_def undated_calendar_def
      undated_events_def run_simps clock_simps)

lemma fixed_startD:
  "fixed_start rt e \<Longrightarrow>
   \<exists>st z. starttime e = Some st \<and> tzinfo st = Some z \<and> fixed_offset rt z"
  by (auto simp: fixed_start_def split: option.splits)

lemma fixed_offset_eq:
  "fixed_offset rt z \<Longrightarrow> tz_offset rt z w f = tz_offset rt z w' f'"
  unfolding fixed_offset_def by metis

lemma dt_lt_fixed:
  assumes "tzinfo a = Some za" "tzinfo b = Some zb" "fixed_offset rt za" "fixed_offset rt zb"
  shows "dt_lt rt a b = Inr (instant rt a < instant rt b)"
proof (cases "za = zb")
  case True
  have "tz_offset rt zb (wall a) (fold a) = tz_offset rt zb (wall b) (fold b)"
    using assms(4) by (rule fixed_offset_eq)
  then show ?thesis
    using assms(1,2) True by (simp add: dt_lt_def instant_def)
next
  case False
  then show ?thesis
    using assms(1,2) by (simp add: dt_lt_def instant_def)
qed

lemma start_lt_fixed:
  "fixed_start rt a \<Longrightarrow> fixed_start rt b \<Longrightarrow>
   start_lt rt a b = (start_instant rt a < start_instant rt b)"
  by (auto dest!: fixed_startD simp: start_lt_def start_instant_def dt_lt_fixed)

lemma starts_after_fixed:
  assumes "starttime e = Some st" "tzinfo st = Some z" "fixed_offset rt z"
  shows "starts_after rt now e = (now < wall st)"
proof -
  have "tz_offset rt z now False = tz_offset rt z (wall st) (fold st)"
    using assms(3) by (rule fixed_offset_eq)
  then show ?thesis
    using assms(1,2) by (simp add: starts_after_def instant_def)
qed

lemma starts_after_mono:
  "fixed_start rt e \<Longrightarrow> \<not> starts_after rt a e \<Longrightarrow> a \<le> b \<Longrightarrow> \<not> starts_after rt b e"
  by (auto dest!: fixed_startD simp: starts_after_fixed)

lemma starts_no_later_fixed:
  "fixed_start rt e \<Longrightarrow> fixed_start rt e' \<Longrightarrow>
   starts_no_later rt e e' = (start_instant rt e \<le> start_instant rt e')"
  by (auto dest!: fixed_startD simp: starts_no_later_def start_instant_def)

lemma next_scan_step:
  "starttime e = Some st \<Longrightarrow>
   next_scan rt k (e # es) =
     (if today rt k < wall st then Inr (Some e) else next_scan rt (Suc k) es)"
  by (simp add: Let_def replace_tzinfo_def dt_gt_def dt_lt_def)

lemma consistent_key:
  "\<forall>a\<in>set es. \<forall>b\<in>set es. lt a b = (f a < (f b :: int)) \<Longrightarrow> consistent lt es"
  unfolding consistent_def list_all_iff by auto

lemma insort_lt_key:
  "\<forall>y\<in>set ys. lt y x = (f y < (f x :: int)) \<Longrightarrow> insort_lt lt x ys = insort_key f x ys"
  by (induction ys) auto

lemma sort_lt_key:
  "\<forall>a\<in>set es. \<forall>b\<in>set es. lt a b = (f a < (f b :: int)) \<Longrightarrow> sort_lt lt es = sort_key f es"
proof (induction es)
  case Nil
  then show ?case by (simp add: sort_lt_def)
next
  case (Cons x xs)
  have ih: "sort_lt lt xs = sort_key f xs"
    using Cons by simp
  have "\<forall>y\<in>set (sort_key f xs). lt y x = (f y < f x)"
    using Cons.prems by simp
  then have "insort_lt lt x (sort_key f xs) = insort_key f x (sort_key f xs)"
    by (rule insort_lt_key)
  then show ?case
    using ih by (simp add: sort_lt_def)
qed

lemma sort_key_short:
  "length es < 2 \<Longrightarrow> sort_key f es = es"
  by (cases es) (auto simp: less_Suc_eq)

lemma sorted_by_starttime_fixed:
  assumes "\<forall>e\<in>set es. fixed_start rt e"
  shows "sorted_by_starttime rt es = Inr (sort_key (start_instant rt) es)"
proof -
  have nn: "\<not> list_ex (\<lambda>e. starttime e = None) es"
    using assms by (auto simp: list_ex_iff dest!: bspec fixed_startD)
  have na: "\<not> list_ex (\<lambda>e. \<not> is_aware e) es"
    using assms by (auto simp: list_ex_iff is_aware_def dest!: bspec fixed_startD)
  have agree: "\<forall>a\<in>set es. \<forall>b\<in>set es. start_lt rt a b = (start_instant rt a < start_instant rt b)"
    using assms by (simp add: start_lt_fixed)
  show ?thesis
  proof (cases "length es < 2")
    case True
    then show ?thesis
      by (simp add: sorted_by_starttime_def sort_key_short)
  next
    case False
    then show ?thesis
      using nn na consistent_key [OF agree] sort_lt_key [OF agree]
      by (simp add: sorted_by_starttime_def)
  qed
qed

lemma parse_ics_events_aware:
  assumes "parse_ics_events self rt rs = Inr evs" "e \<in> set evs" "starttime e = Some st"
  shows "tzinfo st \<noteq> None"
proof -
  from parse_ics_events_member [OF assms(1,2)] obtain r v where
    "decoded_for self rt r v = Inr e" by blast
  then obtain d where d: "get_event_details self rt v = Inr d"
    and e: "e = d\<lparr>event_url := Some (url r)\<rparr>"
    by (auto simp: decoded_for_def split: sum.splits)
  from e assms(3) have "starttime d = Some st" by simp
  with d show ?thesis by (rule get_event_details_aware)
qed

lemma next_scan_sorted:
  assumes mono: "\<forall>i j. i \<le> j \<longrightarrow> today rt i \<le> today rt j"
  shows "sorted (map (start_instant rt) es) \<Longrightarrow> \<forall>e\<in>set es. fixed_start rt e \<Longrightarrow>
    \<exists>r. next_scan rt k es = Inr r \<and>
      (case r of
         None \<Rightarrow> \<forall>e\<in>set es. \<not> starts_after rt (today rt (k + length es - 1)) e
       | Some e \<Rightarrow> e \<in> set es \<and>
           (\<exists>j. k \<le> j \<and> j < k + length es \<and> starts_after rt (today rt j) e \<and>
              (\<forall>e'\<in>set es. starts_after rt (today rt j) e' \<longrightarrow>
                 start_instant rt e \<le> start_instant rt e')))"
proof (induction es arbitrary: k)
  case Nil
  then show ?case by simp
next
  case (Cons x xs)
  from Cons.prems have ax: "fixed_start rt x" and axs: "\<forall>e\<in>set xs. fixed_start rt e"
    and sx: "\<forall>e\<in>set xs. start_instant rt x \<le> start_instant rt e"
    and sxs: "sorted (map (start_instant rt) xs)"
    by auto
  from ax obtain st z where st: "starttime x = Some st" "tzinfo st = Some z" "fixed_offset rt z"
    by (auto dest: fixed_startD)
  note after = starts_after_fixed [OF st]
  show ?case
  proof (cases "today rt k < wall st")
    case True
    then have a: "starts_after rt (today rt k) x"
      by (simp add: after)
    have "next_scan rt k (x # xs) = Inr (Some x)"
      using True by (subst next_scan_step [OF st(1)]) simp
    moreover have "\<forall>e'\<in>set (x # xs). start_instant rt x \<le> start_instant rt e'"
      using sx by simp
    ultimately show ?thesis
      using a by (intro exI [of _ "Some x"]) (auto intro!: exI [of _ k])
  next
    case False
    then have na: "\<not> starts_after rt (today rt k) x"
      by (simp add: after)
    have step: "next_scan rt k (x # xs) = next_scan rt (Suc k) xs"
      using False by (subst next_scan_step [OF st(1)]) simp
    from Cons.IH [OF sxs axs, of "Suc k"] obtain r where
      r: "next_scan rt (Suc k) xs = Inr r"
      and c: "case r of
         None \<Rightarrow> \<forall>e\<in>set xs. \<not> starts_after rt (today rt (Suc k + length xs - 1)) e
       | Some e \<Rightarrow> e \<in> set xs \<and>
           (\<exists>j. Suc k \<le> j \<and> j < Suc k + length xs \<and> starts_after rt (today rt j) e \<and>
              (\<forall>e'\<in>set xs. starts_after rt (today rt j) e' \<longrightarrow>
                 start_instant rt e \<le> start_instant rt e'))"
      by blast
    show ?thesis
    proof (cases r)
      case None
      have "today rt k \<le> today rt (k + length xs)"
        using mono by simp
      then have "\<not> starts_after rt (today rt (k + length xs)) x"
        using starts_after_mono [OF ax na] by blast
      then show ?thesis
        using None r c step by simp
    next
      case (Some e)
      from c Some obtain j where e: "e \<in> set xs" and j: "Suc k \<le> j" "j < Suc k + length xs"
        and aj: "starts_after rt (today rt j) e"
        and mj: "\<forall>e'\<in>set xs. starts_after rt (today rt j) e'
            \<longrightarrow> start_instant rt e \<le> start_instant rt e'"
        by auto
      have "today rt k \<le> today rt j"
        using mono j by simp
      then have "\<not> starts_after rt (today rt j) x"
        using starts_after_mono [OF ax na] by blast
      then have "\<forall>e'\<in>set (x # xs). starts_after rt (today rt j) e'
          \<longrightarrow> start_instant rt e \<le> start_instant rt e'"
        using mj by simp
      moreover have "k \<le> j" "j < k + length (x # xs)"
        using j by simp_all
      ultimately show ?thesis
        using Some r step e aj by (intro exI [of _ "Some e"]) (auto intro!: exI [of _ j])
    qed
  qed
qed

lemma sample_fixed:
  "fixed_offset sample_runtime 11" "fixed_offset sample_runtime 12"
  by (simp_all add: fixed_offset_def tz_offset_def sample_runtime_def)

text \<open>
  Claim C1, as amended. Let the transport return a collection that decodes to events
  which all have a start, let the zone object of every start have a fixed offset, and
  let the clock not run backwards during the call. Then \<^verbatim>\<open>get_next_event\<close> returns. When
  it returns an event, the event is one of the decoded events, it starts after the
  clock reading of the round that accepted it, and no decoded event that starts after
  that reading starts earlier. When it returns \<open>None\<close>, no decoded event starts after the
  last reading of the call.
\<close>

theorem get_next_event_minimum:
  assumes fetch: "events (calendar self) s = Inr raws"
    and parse: "parse_ics_events self rt raws = Inr evs"
    and starts: "\<forall>e\<in>set evs. starttime e \<noteq> None"
    and fixed: "\<forall>e\<in>set evs. \<forall>st z. starttime e = Some st \<longrightarrow> tzinfo st = Some z
        \<longrightarrow> fixed_offset rt z"
    and mono: "\<forall>i j. i \<le> j \<longrightarrow> today rt i \<le> today rt j"
  shows "\<exists>r. get_next_event self rt s = Inr r \<and>
      (case r of
         None \<Rightarrow> \<forall>e\<in>set evs. \<not> starts_after rt (today rt (length evs - 1)) e
       | Some e \<Rightarrow> e \<in> set evs \<and>
           (\<exists>k<length evs. starts_after rt (today rt k) e \<and>
              (\<forall>e'\<in>set evs. starts_after rt (today rt k) e' \<longrightarrow>
                 starts_no_later rt e e')))"
proof -
  have fs: "\<forall>e\<in>set evs. fixed_start rt e"
  proof
    fix e assume e: "e \<in> set evs"
    with starts obtain st where st: "starttime e = Some st" by auto
    with parse e obtain z where z: "tzinfo st = Some z"
      using parse_ics_events_aware by fastforce
    with fixed e st have "fixed_offset rt z" by blast
    with st z show "fixed_start rt e" by (simp add: fixed_start_def)
  qed
  let ?sorted = "sort_key (start_instant rt) evs"
  have run: "get_next_event self rt s = next_scan rt 0 ?sorted"
    using fetch parse sorted_by_starttime_fixed [OF fs] by (simp add: get_next_event_def)
  have "sorted (map (start_instant rt) ?sorted)" and "\<forall>e\<in>set ?sorted. fixed_start rt e"
    using fs by simp_all
  from next_scan_sorted [OF mono this, of 0] obtain r where
    r: "next_scan rt 0 ?sorted = Inr r"
    and c: "case r of
         None \<Rightarrow> \<forall>e\<in>set ?sorted. \<not> starts_after rt (today rt (0 + length ?sorted - 1)) e
       | Some e \<Rightarrow> e \<in> set ?sorted \<and>
           (\<exists>j. 0 \<le> j \<and> j < 0 + length ?sorted \<and> starts_after rt (today rt j) e \<and>
              (\<forall>e'\<in>set ?sorted. starts_after rt (today rt j) e' \<longrightarrow>
                 start_instant rt e \<le> start_instant rt e'))"
    by blast
  show ?thesis
  proof (cases r)
    case None
    then show ?thesis using run r c by simp
  next
    case (Some e)
    from c Some obtain j where e: "e \<in> set evs" and j: "j < length evs"
      and aj: "starts_after rt (today rt j) e"
      and mj: "\<forall>e'\<in>set evs. starts_after rt (today rt j) e'
          \<longrightarrow> start_instant rt e \<le> start_instant rt e'"
      by auto
    have "\<forall>e'\<in>set evs. starts_after rt (today rt j) e' \<longrightarrow> starts_no_later rt e e'"
      using mj fs e by (simp add: starts_no_later_fixed)
    then show ?thesis
      using Some run r e j aj by auto
  qed
qed

text \<open>A run with the zone as \<^verbatim>\<open>pytz\<close> gives it: at 02:00 \<^verbatim>\<open>Meetup\<close> has begun, and
  \<^verbatim>\<open>Team Meeting\<close>, at 00:30 UTC, is the next event, before \<^verbatim>\<open>Lunch\<close>, at 01:10 UTC.\<close>

theorem get_next_event_minimum_witness:
  "get_next_event (client berlin_pytz) sample_runtime autumn_calendar
     = Inr (Some (meeting False 11))"
proof -
  have starts: "\<forall>e\<in>set [meeting False 11, lunch False 12, meetup False 11]. starttime e \<noteq> None"
    by (simp add: meeting_def lunch_def meetup_def)
  have fixed: "\<forall>e\<in>set [meeting False 11, lunch False 12, meetup False 11].
      \<forall>st z. starttime e = Some st \<longrightarrow> tzinfo st = Some z \<longrightarrow> fixed_offset sample_runtime z"
    using sample_fixed by (auto simp: meeting_def lunch_def meetup_def)
  have mono: "\<forall>i j. i \<le> j \<longrightarrow> today sample_runtime i \<le> today sample_runtime j"
    by (simp add: sample_runtime_def)
  have sorted: "sorted_by_starttime sample_runtime
      [meeting False 11, lunch False 12, meetup False 11]
      = Inr [meetup False 11, meeting False 11, lunch False 12]"
    by (simp add: sorted_by_starttime_def consistent_def start_lt_def dt_lt_def tz_offset_def
        Utc_def is_aware_def sort_lt_def meeting_def lunch_def meetup_def sample_runtime_def
        clock_simps)
  have scan: "next_scan sample_runtime 0 [meetup False 11, meeting False 11, lunch False 12]
      = Inr (Some (meeting False 11))"
    by (simp add: meeting_def lunch_def meetup_def dt_gt_def dt_lt_def replace_tzinfo_def
        sample_runtime_def clock_simps)
  have run: "get_next_event (client berlin_pytz) sample_runtime autumn_calendar
      = Inr (Some (meeting False 11))"
    by (simp add: get_next_event_def memory_fetch autumn_pytz sorted scan del: next_scan.simps)
  show ?thesis
    using get_next_event_minimum [OF memory_fetch autumn_pytz starts fixed mono]
    by (simp only: run)
qed

text \<open>The claim as it was stated fails with the zone as \<^verbatim>\<open>zoneinfo\<close> gives it. Both
  starts carry the one zone object and are ordered by wall clock: \<^verbatim>\<open>Lunch\<close>, 02:10 after
  the change, comes before \<^verbatim>\<open>Team Meeting\<close>, 02:30 before the change. The call returns
  \<^verbatim>\<open>Lunch\<close>, although \<^verbatim>\<open>Team Meeting\<close> starts after the clock reading too and is the
  earlier instant.\<close>

theorem get_next_event_shared_zone_object:
  "parse_ics_events (client berlin_zoneinfo) sample_runtime autumn_calendar
     = Inr [meeting False 7, lunch True 7, meetup False 7]
   \<and> get_next_event (client berlin_zoneinfo) sample_runtime autumn_calendar
     = Inr (Some (lunch True 7))
   \<and> starts_after sample_runtime (today sample_runtime 0) (meeting False 7)
   \<and> instant sample_runtime \<lparr>wall = clock 2024 10 27 2 30, fold = False, tzinfo = Some 7\<rparr>
       < instant sample_runtime \<lparr>wall = clock 2024 10 27 2 10, fold = True, tzinfo = Some 7\<rparr>
   \<and> \<not> starts_no_later sample_runtime (lunch True 7) (meeting False 7)"
proof -
  have sorted: "sorted_by_starttime sample_runtime
      [meeting False 7, lunch True 7, meetup False 7]
      = Inr [meetup False 7, lunch True 7, meeting False 7]"
    by (simp add: sorted_by_starttime_def consistent_def start_lt_def dt_lt_def tz_offset_def
        Utc_def is_aware_def sort_lt_def meeting_def lunch_def meetup_def sample_runtime_def
        clock_simps)
  have scan: "next_scan sample_runtime 0 [meetup False 7, lunch True 7, meeting False 7]
      = Inr (Some (lunch True 7))"
    by (simp add: meeting_def lunch_def meetup_def dt_gt_def dt_lt_def replace_tzinfo_def
        sample_runtime_def clock_simps)
  have run: "get_next_event (client berlin_zoneinfo) sample_runtime autumn_calendar
      = Inr (Some (lunch True 7))"
    by (simp add: get_next_event_def memory_fetch autumn_zoneinfo sorted scan
        del: next_scan.simps)
  have rest: "starts_after sample_runtime (today sample_runtime 0) (meeting False 7)
     \<and> instant sample_runtime \<lparr>wall = clock 2024 10 27 2 30, fold = False, tzinfo = Some 7\<rparr>
       < instant sample_runtime \<lparr>wall = clock 2024 10 27 2 10, fold = True, tzinfo = Some 7\<rparr>
     \<and> \<not> starts_no_later sample_runtime (lunch True 7) (meeting False 7)"
    by (simp add: starts_after_def starts_no_later_def instant_def tz_offset_def Utc_def
        meeting_def lunch_def sample_runtime_def clock_simps)
  show ?thesis
    using autumn_zoneinfo run rest by simp
qed

text \<open>
  Claim C2, as amended. When a decoded event of the collection has no start,
  \<^verbatim>\<open>get_next_event\<close> returns no result and skips nothing: it fails. The failure is the
  comparison failure of the sort (TypeError) when the collection decodes to two or more
  events, and the failed access to the zone of the missing start (AttributeError) when
  it decodes to that one event only.
\<close>

theorem get_next_event_null_start:
  assumes fetch: "events (calendar self) s = Inr raws"
    and parse: "parse_ics_events self rt raws = Inr evs"
    and null: "list_ex (\<lambda>e. starttime e = None) evs"
  shows "get_next_event self rt s =
     Inl (if length evs < 2 then AttributeError else TypeError)"
proof (cases "length evs < 2")
  case True
  with null obtain e where e: "evs = [e]" "starttime e = None"
    by (cases evs) (auto simp: less_Suc_eq)
  then show ?thesis
    using fetch parse by (simp add: get_next_event_def sorted_by_starttime_def)
next
  case False
  then show ?thesis
    using fetch parse null by (simp add: get_next_event_def sorted_by_starttime_def)
qed

theorem get_next_event_null_start_witness:
  "list_ex (\<lambda>e. starttime e = None)
     ([meeting False 11, lunch False 12, meetup False 11] @ undated_events)
   \<and> get_next_event (client berlin_pytz) sample_runtime (autumn_calendar @ undated_calendar)
       = Inl TypeError
   \<and> get_next_event (client berlin_pytz) sample_runtime undated_calendar = Inl AttributeError"
proof -
  have n1: "list_ex (\<lambda>e. starttime e = None)
      ([meeting False 11, lunch False 12, meetup False 11] @ undated_events)"
    by (simp add: undated_events_def)
  have n2: "list_ex (\<lambda>e. starttime e = None) undated_events"
    by (simp add: undated_events_def)
  show ?thesis
    using n1 get_next_event_null_start [OF memory_fetch mixed_parse n1]
      get_next_event_null_start [OF memory_fetch undated_parse n2]
    by (simp add: undated_events_def)
qed

text \<open>The claim as it was stated, a comparison failure in every case, fails on a
  collection of a single event without a start: nothing is compared, and the scan fails
  at the zone of the start.\<close>

theorem get_next_event_single_undated:
  "parse_ics_events (client berlin_pytz) sample_runtime undated_calendar = Inr undated_events
   \<and> list_ex (\<lambda>e. starttime e = None) undated_events
   \<and> get_next_event (client berlin_pytz) sample_runtime undated_calendar = Inl AttributeError
   \<and> get_next_event (client berlin_pytz) sample_runtime undated_calendar \<noteq> Inl TypeError"
  by (simp add: undated_parse get_next_event_def memory_fetch sorted_by_starttime_def
      undated_events_def)

subsection \<open>Search by title\<close>

lemma str_in_iff:
  "str_in a b = (\<exists>p q. b = p @ a @ q)"
proof (induction b)
  case Nil
  then show ?case by auto
next
  case (Cons c cs)
  have pre: "(take (length a) (c # cs) = a) = (\<exists>q. c # cs = a @ q)"
    by (metis append_eq_conv_conj append_take_drop_id)
  show ?case
  proof
    assume "str_in a (c # cs)"
    then consider "take (length a) (c # cs) = a" | "str_in a cs"
      by auto
    then show "\<exists>p q. c # cs = p @ a @ q"
    proof cases
      case 1
      then obtain q where "c # cs = a @ q" using pre by blast
      then have "c # cs = [] @ a @ q" by simp
      then show ?thesis by blast
    next
      case 2
      then obtain p q where "cs = p @ a @ q" using Cons.IH by blast
      then have "c # cs = (c # p) @ a @ q" by simp
      then show ?thesis by blast
    qed
  next
    assume "\<exists>p q. c # cs = p @ a @ q"
    then obtain p q where e: "c # cs = p @ a @ q" by blast
    show "str_in a (c # cs)"
    proof (cases p)
      case Nil
      then have "c # cs = a @ q" using e by simp
      then have "take (length a) (c # cs) = a" using pre by blast
      then show ?thesis by simp
    next
      case (Cons x p')
      then have "cs = p' @ a @ q" using e by simp
      then show ?thesis using Cons.IH by auto
    qed
  qed
qed

lemma str_in_empty:
  "str_in [] b"
  by (cases b) simp_all

lemma lower_ascii:
  "is_ascii s \<Longrightarrow> lower rt s = map ascii_lower s"
  by (simp add: lower_def is_ascii_def)

lemma str_in_ascii_lower:
  "str_in (map ascii_lower t) (map ascii_lower s) = contains_ignoring_case s t"
proof
  assume "str_in (map ascii_lower t) (map ascii_lower s)"
  then obtain p' q' where "map ascii_lower s = p' @ map ascii_lower t @ q'"
    unfolding str_in_iff by blast
  then obtain p r where s: "s = p @ r" and r: "map ascii_lower r = map ascii_lower t @ q'"
    by (metis map_eq_append_conv)
  from r obtain u q where "r = u @ q" "map ascii_lower u = map ascii_lower t"
    by (metis map_eq_append_conv)
  then show "contains_ignoring_case s t"
    using s unfolding contains_ignoring_case_def by blast
next
  assume "contains_ignoring_case s t"
  then obtain p u q where "s = p @ u @ q" "map ascii_lower u = map ascii_lower t"
    unfolding contains_ignoring_case_def by blast
  then have "map ascii_lower s = map ascii_lower p @ map ascii_lower t @ map ascii_lower q"
    by simp
  then show "str_in (map ascii_lower t) (map ascii_lower s)"
    unfolding str_in_iff by blast
qed

lemma get_events_with_title_filter:
  "events (calendar self) s = Inr raws \<Longrightarrow>
   parse_ics_events self rt raws = Inr evs \<Longrightarrow>
   get_events_with_title self rt s t =
     Inr (filter (\<lambda>e. str_in (lower rt t) (lower rt (title e))) evs)"
  by (simp add: get_events_with_title_def)

text \<open>
  Claim C6, as amended. When the transport returns a collection that decodes to the
  events \<open>evs\<close>, \<^verbatim>\<open>get_events_with_title\<close> returns exactly the events of \<open>evs\<close> whose
  lowered title contains the lowered query, and no others, in the order of \<open>evs\<close>. When
  the query and the titles are ASCII text, these are the events whose title contains
  the query, case ignored.
\<close>

theorem get_events_with_title_exact:
  assumes fetch: "events (calendar self) s = Inr raws"
    and parse: "parse_ics_events self rt raws = Inr evs"
  shows "get_events_with_title self rt s t
       = Inr (filter (\<lambda>e. contains_lowered rt (title e) t) evs)
     \<and> (is_ascii t \<and> (\<forall>e\<in>set evs. is_ascii (title e)) \<longrightarrow>
          get_events_with_title self rt s t
            = Inr (filter (\<lambda>e. contains_ignoring_case (title e) t) evs))"
proof (intro conjI impI)
  show "get_events_with_title self rt s t
       = Inr (filter (\<lambda>e. contains_lowered rt (title e) t) evs)"
    unfolding get_events_with_title_filter [OF fetch parse] contains_lowered_def str_in_iff ..
next
  assume a: "is_ascii t \<and> (\<forall>e\<in>set evs. is_ascii (title e))"
  have "filter (\<lambda>e. str_in (lower rt t) (lower rt (title e))) evs
      = filter (\<lambda>e. contains_ignoring_case (title e) t) evs"
  proof (rule filter_cong [OF refl])
    fix e assume "e \<in> set evs"
    then have "lower rt (title e) = map ascii_lower (title e)"
      using a by (simp add: lower_ascii)
    moreover have "lower rt t = map ascii_lower t"
      using a by (simp add: lower_ascii)
    ultimately show "str_in (lower rt t) (lower rt (title e)) = contains_ignoring_case (title e) t"
      by (simp add: str_in_ascii_lower)
  qed
  then show "get_events_with_title self rt s t
      = Inr (filter (\<lambda>e. contains_ignoring_case (title e) t) evs)"
    unfolding get_events_with_title_filter [OF fetch parse] by simp
qed

theorem get_events_with_title_exact_witness:
  "get_events_with_title (client berlin_pytz) sample_runtime autumn_calendar (str ''MEET'')
     = Inr [meeting False 11, meetup False 11]"
proof -
  have a: "is_ascii (str ''MEET'')"
    "is_ascii (str ''Team Meeting'')" "is_ascii (str ''Lunch'')" "is_ascii (str ''Meetup'')"
    by (simp_all add: is_ascii_def str_def)
  have t: "\<forall>e\<in>set [meeting False 11, lunch False 12, meetup False 11]. is_ascii (title e)"
    using a by (simp add: meeting_def lunch_def meetup_def)
  have m: "str_in (map ascii_lower (str ''MEET'')) (map ascii_lower (str ''Team Meeting''))"
    "\<not> str_in (map ascii_lower (str ''MEET'')) (map ascii_lower (str ''Lunch''))"
    "str_in (map ascii_lower (str ''MEET'')) (map ascii_lower (str ''Meetup''))"
    by code_simp+
  have "get_events_with_title (client berlin_pytz) sample_runtime autumn_calendar (str ''MEET'')
      = Inr (filter (\<lambda>e. contains_ignoring_case (title e) (str ''MEET''))
               [meeting False 11, lunch False 12, meetup False 11])"
    using get_events_with_title_exact [OF memory_fetch autumn_pytz, of "str ''MEET''"] a(1) t
    by blast
  then show ?thesis
    using m
    by (simp add: str_in_ascii_lower [symmetric] meeting_def lunch_def meetup_def
        del: str_in.simps)
qed

text \<open>The claim as it was stated fails on the query capital sigma and the title capital
  alpha, capital sigma. The title contains the query as it stands, but lowering makes
  the sigma at the end of the title a final sigma and the sigma of the query a plain
  one, and the event is not returned.\<close>

theorem get_events_with_title_final_sigma:
  "parse_ics_events (client berlin_pytz) sample_runtime sigma_calendar
     = Inr [\<lparr>title = [913, 931], starttime = None, endtime = None, event_url = Some ''u5''\<rparr>]
   \<and> [913, 931] = [913] @ [931] @ []
   \<and> contains_ignoring_case [913, 931] [931]
   \<and> lower sample_runtime [913, 931] = [945, 962]
   \<and> lower sample_runtime [931] = [963]
   \<and> get_events_with_title (client berlin_pytz) sample_runtime sigma_calendar [931] = Inr []"
proof -
  have p: "parse_ics_events (client berlin_pytz) sample_runtime sigma_calendar
     = Inr [\<lparr>title = [913, 931], starttime = None, endtime = None, event_url = Some ''u5''\<rparr>]"
    by (simp add: sigma_calendar_def run_simps)
  have c: "contains_ignoring_case [913, 931] [931]"
    unfolding contains_ignoring_case_def
    by (intro exI [of _ "[913]"] exI [of _ "[931]"] exI [of _ "[]"]) simp
  have l: "lower sample_runtime [913, 931] = [945, 962]" "lower sample_runtime [931] = [963]"
    by (simp_all add: lower_def final_sigma_def sample_runtime_def)
  show ?thesis
    using p c l by (simp add: get_events_with_title_def memory_fetch)
qed

text \<open>
  Claim C10. With the empty text as query, \<^verbatim>\<open>get_events_with_title\<close> returns every
  decoded event of the collection.
\<close>

theorem get_events_with_title_empty:
  "events (calendar self) s = Inr raws \<Longrightarrow>
   parse_ics_events self rt raws = Inr evs \<Longrightarrow>
   get_events_with_title self rt s [] = Inr evs"
  by (simp add: get_events_with_title_filter lower_def str_in_empty)

theorem get_events_with_title_empty_witness:
  "get_events_with_title (client berlin_pytz) sample_runtime autumn_calendar []
     = Inr [meeting False 11, lunch False 12, meetup False 11]"
  using get_events_with_title_empty [OF memory_fetch autumn_pytz] .

subsection \<open>Creating an event\<close>

lemma div_add_days:
  "(w + n * usec_per_day) div usec_per_day = w div usec_per_day + n"
  by (simp add: usec_per_day_def)

text \<open>
  Claim C4, as amended. While the end stays within the range of instants: a full-day
  event with a whole number \<open>n\<close> of days hands the transport one calendar object with one
  event whose start is the date of the given instant and whose end is that date plus
  \<open>n\<close> days, both date-only; a full-day event with a floating-point number of days, of
  which \<^verbatim>\<open>dt.timedelta\<close> makes the span \<open>span\<close>, has as end the date of the given instant
  moved by \<open>span\<close>; an event that is not full-day, with a time span as duration, hands
  over the given instant as start and the instant moved by the span as end, both full
  timestamps. When the end leaves the range, the call fails with OverflowError and
  hands over nothing.
\<close>

theorem create_new_event_payload:
  "(- 999999999 \<le> n \<and> n \<le> 999999999 \<and> in_range (wall date + n * usec_per_day) \<longrightarrow>
      create_new_event self s summary date (Int_days n) True =
        add_event (calendar self) s
          (new_calendar summary (Date (date_of date)) (Date (date_of date + n))))
   \<and> (in_range (wall date + span) \<longrightarrow>
      create_new_event self s summary date (Float_days (Inr span)) True =
        add_event (calendar self) s
          (new_calendar summary (Date (date_of date))
             (Date ((wall date + span) div usec_per_day))))
   \<and> (in_range (wall date + span) \<longrightarrow>
      create_new_event self s summary date (Timedelta span) False =
        add_event (calendar self) s
          (new_calendar summary (Datetime date)
             (Datetime \<lparr>wall = wall date + span, fold = False, tzinfo = tzinfo date\<rparr>)))
   \<and> (- 999999999 \<le> n \<and> n \<le> 999999999 \<and> \<not> in_range (wall date + n * usec_per_day) \<longrightarrow>
      create_new_event self s summary date (Int_days n) True = Inl OverflowError)
   \<and> (\<not> in_range (wall date + span) \<longrightarrow>
      create_new_event self s summary date (Float_days (Inr span)) True = Inl OverflowError
      \<and> create_new_event self s summary date (Timedelta span) False = Inl OverflowError)"
  by (simp add: create_new_event_def timedelta_def dt_add_def date_of_def div_add_days)

text \<open>The scenarios of the specification: \<^verbatim>\<open>Holiday\<close> from 1 June 2024 for three days
  ends on 4 June 2024, and the timed event of one hour from 09:00 ends at 10:00.\<close>

theorem create_new_event_payload_witness:
  "create_new_event (client berlin_pytz) [] (str ''Holiday'')
     \<lparr>wall = clock 2024 6 1 9 0, fold = False, tzinfo = None\<rparr> (Int_days 3) True =
     Inr [\<lparr>url = ''new'', data = Decoded [Component ''VCALENDAR'' no_properties
       [Component ''VEVENT''
          \<lparr>DTSTART = Some (Date (ymd 2024 6 1)), DTEND = Some (Date (ymd 2024 6 4)),
             SUMMARY = Some (str ''Holiday'')\<rparr> []]]\<rparr>]
   \<and> create_new_event (client berlin_pytz) [] (str ''Holiday'')
     \<lparr>wall = clock 2024 6 1 9 0, fold = False, tzinfo = None\<rparr> (Timedelta (hours 1)) False =
     Inr [\<lparr>url = ''new'', data = Decoded [Component ''VCALENDAR'' no_properties
       [Component ''VEVENT''
          \<lparr>DTSTART = Some (Datetime \<lparr>wall = clock 2024 6 1 9 0, fold = False, tzinfo = None\<rparr>),
             DTEND = Some (Datetime \<lparr>wall = clock 2024 6 1 10 0, fold = False, tzinfo = None\<rparr>),
             SUMMARY = Some (str ''Holiday'')\<rparr> []]]\<rparr>]"
  using create_new_event_payload
    [of 3 "\<lparr>wall = clock 2024 6 1 9 0, fold = False, tzinfo = None\<rparr>" "client berlin_pytz" "[]"
        "str ''Holiday''" "hours 1"]
  by (simp add: client_def memory_calendar_def new_calendar_def date_of_def in_range_def
      clock_def hours_def ymd_def days_before_year_def days_before_month_def is_leap_def
      usec_per_day_def)

text \<open>The claim as it was stated fails for half a day from 18:00 of 1 June 2024, where
  the end is 2 June 2024, and for one day from 31 December 9999, where the call fails.\<close>

theorem create_new_event_half_day_and_last_day:
  "create_new_event (client berlin_pytz) [] (str ''Holiday'')
     \<lparr>wall = clock 2024 6 1 18 0, fold = False, tzinfo = None\<rparr>
     (Float_days (Inr (hours 12))) True =
     Inr [\<lparr>url = ''new'', data = Decoded [Component ''VCALENDAR'' no_properties
       [Component ''VEVENT''
          \<lparr>DTSTART = Some (Date (ymd 2024 6 1)), DTEND = Some (Date (ymd 2024 6 2)),
             SUMMARY = Some (str ''Holiday'')\<rparr> []]]\<rparr>]
   \<and> create_new_event (client berlin_pytz) [] (str ''Holiday'')
     \<lparr>wall = clock 9999 12 31 0 0, fold = False, tzinfo = None\<rparr> (Int_days 1) True =
     Inl OverflowError"
  by (simp add: create_new_event_def timedelta_def dt_add_def client_def memory_calendar_def
      new_calendar_def date_of_def in_range_def clock_def hours_def ymd_def days_before_year_def
      days_before_month_def is_leap_def usec_per_day_def)

subsection \<open>Deleting and renaming\<close>

text \<open>
  Claim C7. When the identifier of an Event mapping does not resolve, so that the
  lookup of the transport fails, \<^verbatim>\<open>delete_event\<close> and \<^verbatim>\<open>rename_event\<close> both end in that
  same failure, and the Event mapping is after the call what it was before.
\<close>

theorem lookup_failure_propagates:
  "event_url event = Some u \<Longrightarrow> event_by_url (calendar self) s u = Inl err \<Longrightarrow>
   delete_event self s event = (event, Inl err)
   \<and> rename_event self s event new_title = (event, Inl err)"
  by (simp add: delete_event_def rename_event_def)

theorem lookup_failure_propagates_witness:
  "event_url \<lparr>title = str ''Holiday'', starttime = None, endtime = None,
      event_url = Some ''gone''\<rparr> = Some ''gone''
   \<and> event_by_url (calendar (client berlin_pytz))
       [\<lparr>url = ''kept'', data = Malformed\<rparr>] ''gone'' = Inl NotFoundError
   \<and> delete_event (client berlin_pytz) [\<lparr>url = ''kept'', data = Malformed\<rparr>]
       \<lparr>title = str ''Holiday'', starttime = None, endtime = None, event_url = Some ''gone''\<rparr>
     = (\<lparr>title = str ''Holiday'', starttime = None, endtime = None,
          event_url = Some ''gone''\<rparr>,
        Inl NotFoundError)
   \<and> rename_event (client berlin_pytz) [\<lparr>url = ''kept'', data = Malformed\<rparr>]
       \<lparr>title = str ''Holiday'', starttime = None, endtime = None, event_url = Some ''gone''\<rparr>
       (str ''Vacation'')
     = (\<lparr>title = str ''Holiday'', starttime = None, endtime = None,
          event_url = Some ''gone''\<rparr>,
        Inl NotFoundError)"
proof -
  have u: "event_url \<lparr>title = str ''Holiday'', starttime = None, endtime = None,
      event_url = Some ''gone''\<rparr> = Some ''gone''"
    by simp
  have l: "event_by_url (calendar (client berlin_pytz))
      [\<lparr>url = ''kept'', data = Malformed\<rparr>] ''gone'' = Inl NotFoundError"
    by (simp add: client_def memory_calendar_def)
  show ?thesis
    using u l lookup_failure_propagates [OF u l, of "str ''Vacation''"] by simp
qed

end
